theory Spec2Isabelle
  imports Main "HOL-Library.Multiset"
begin

section \<open>JavaScript array helpers\<close>

text \<open>
  \<^verbatim>\<open>Array.prototype.findIndex\<close>: the index of the first element satisfying the
  predicate, \<open>-1\<close> when there is none.
\<close>

fun findIndex :: "('a \<Rightarrow> bool) \<Rightarrow> 'a list \<Rightarrow> int" where
  "findIndex p [] = - 1"
| "findIndex p (x # xs) =
     (if p x then 0
      else (let r = findIndex p xs in if r = - 1 then - 1 else r + 1))"

text \<open>
  \<^verbatim>\<open>Array.prototype.some\<close> with the two-argument callback \<open>(element, index)\<close>.
\<close>

definition some_indexed :: "('a \<Rightarrow> nat \<Rightarrow> bool) \<Rightarrow> 'a list \<Rightarrow> bool" where
  "some_indexed f xs = list_ex (\<lambda>i. f (xs ! i) i) [0..<length xs]"

text \<open>
  \<^verbatim>\<open>Array.prototype.sort(compare)\<close>. The sort is stable (ECMAScript 2019), and every
  stable sort yields the same array for a consistent comparator, so a stable insertion
  sort stands for it: \<open>x\<close> goes before the first \<open>y\<close> with \<open>compare(x, y) \<le> 0\<close>.
\<close>

fun insertBy :: "('a \<Rightarrow> 'a \<Rightarrow> int) \<Rightarrow> 'a \<Rightarrow> 'a list \<Rightarrow> 'a list" where
  "insertBy cmp x [] = [x]"
| "insertBy cmp x (y # ys) =
     (if cmp x y \<le> 0 then x # y # ys else y # insertBy cmp x ys)"

definition sortBy :: "('a \<Rightarrow> 'a \<Rightarrow> int) \<Rightarrow> 'a list \<Rightarrow> 'a list" where
  "sortBy cmp xs = foldr (insertBy cmp) xs []"

section \<open>Calendar days and instants\<close>

text \<open>
  The column \<^verbatim>\<open>workout_history.date\<close> has the SQL type \<^verbatim>\<open>date\<close>; a row carries it as
  the string \<^verbatim>\<open>'YYYY-MM-DD'\<close>. Such a calendar day is represented by its day number
  (days since 1970-01-01). A JavaScript \<^verbatim>\<open>Date\<close> is represented by its milliseconds on
  the local wall clock. The time zone of the process is a function \<open>off\<close> that gives, for
  an instant on the local wall clock, the offset to UTC in force then (local = UTC +
  offset); with daylight saving time it changes in the course of the year. The functions
  below are those of \<^verbatim>\<open>date-fns\<close> and of \<^verbatim>\<open>Date\<close> that the source calls, in that
  representation.
\<close>

type_synonym calday = int
type_synonym instant = int

definition msPerDay :: int where
  "msPerDay = 86400000"

text \<open>\<^verbatim>\<open>parseISO\<close> of a date-only string: local midnight of that day.\<close>

definition parseISO :: "calday \<Rightarrow> instant" where
  "parseISO d = d * msPerDay"

definition startOfDay :: "instant \<Rightarrow> instant" where
  "startOfDay t = (t div msPerDay) * msPerDay"

text \<open>\<^verbatim>\<open>endOfDay\<close>: 23:59:59.999 of the same local day.\<close>

definition endOfDay :: "instant \<Rightarrow> instant" where
  "endOfDay t = startOfDay t + msPerDay - 1"

definition subDays :: "instant \<Rightarrow> int \<Rightarrow> instant" where
  "subDays t n = t - n * msPerDay"

text \<open>\<^verbatim>\<open>differenceInDays\<close>: the number of full days between two instants, truncated
  towards zero.\<close>

definition differenceInDays :: "instant \<Rightarrow> instant \<Rightarrow> int" where
  "differenceInDays dateLeft dateRight =
     (let diff = dateLeft - dateRight
      in if 0 \<le> diff then diff div msPerDay else - ((- diff) div msPerDay))"

text \<open>\<^verbatim>\<open>isWithinInterval(date, { start, end })\<close>, the interval given as a pair.\<close>

definition isWithinInterval :: "instant \<Rightarrow> instant \<times> instant \<Rightarrow> bool" where
  "isWithinInterval t interval = (fst interval \<le> t \<and> t \<le> snd interval)"

text \<open>
  \<^verbatim>\<open>new Date(s).getTime()\<close> for a date-only string \<open>s\<close>: such a string is read as
  midnight UTC, and \<^verbatim>\<open>getTime\<close> gives UTC milliseconds.
\<close>

definition dateGetTime :: "calday \<Rightarrow> int" where
  "dateGetTime d = d * msPerDay"

text \<open>
  \<^verbatim>\<open>t.toISOString().split('T')[0]\<close>: the calendar day of the instant in UTC, which is
  the local instant less the offset in force at that instant. The resulting strings
  \<^verbatim>\<open>'YYYY-MM-DD'\<close> are again represented by day numbers; their default (lexicographic)
  sort order is the numeric order of the day numbers.
\<close>

definition toISODay :: "(instant \<Rightarrow> int) \<Rightarrow> instant \<Rightarrow> calday" where
  "toISODay off t = (t - off t) div msPerDay"

text \<open>
  Two time zones. UTC has offset 0 throughout. Europe/London in 2024 is one hour ahead
  of UTC during British Summer Time, which on the local clock runs from 01:00 on
  31 March (day 19813) to 02:00 on 27 October (day 20023), and has offset 0 otherwise.
\<close>

definition utcZone :: "instant \<Rightarrow> int" where
  "utcZone t = 0"

definition europeLondon :: "instant \<Rightarrow> int" where
  "europeLondon t =
     (if 19813 * msPerDay + 3600000 \<le> t \<and> t < 20023 * msPerDay + 7200000
      then 3600000 else 0)"

text \<open>The calendar day of an instant on the local wall clock.\<close>

definition dayOf :: "instant \<Rightarrow> calday" where
  "dayOf t = t div msPerDay"

section \<open>Workout history rows\<close>

datatype json =
    JNull
  | JBool bool
  | JNum int
  | JStr string
  | JArr "json list"
  | JObj "(string \<times> json) list"

text \<open>A row of \<^verbatim>\<open>workout_history\<close> (\<^verbatim>\<open>Tables['workout_history']['Row']\<close>).\<close>

record workout_row =
  row_id :: string
  user_id :: string
  date :: calday
  exercises :: json
  created_at :: string

section \<open>Streaks: \<^verbatim>\<open>src/lib/streakUtils.ts\<close>\<close>

text \<open>
  The counting loop of \<^verbatim>\<open>calculateStreak\<close>, over the entries of
  \<^verbatim>\<open>sortedHistory\<close> from index \<open>i\<close> on, with the loop variables \<open>streak\<close> and
  \<open>currentDate\<close>. \<^verbatim>\<open>continue\<close> is the recursive call, \<^verbatim>\<open>break\<close> returns.
\<close>

fun streakLoop :: "instant \<Rightarrow> nat \<Rightarrow> workout_row list \<Rightarrow> nat \<Rightarrow> instant \<Rightarrow> nat" where
  "streakLoop today i [] streak currentDate = streak"
| "streakLoop today i (w # ws) streak currentDate =
     (let workoutDate = startOfDay (parseISO (date w)) in
      if i = 0 \<and> isWithinInterval workoutDate (startOfDay today, endOfDay today)
      then streakLoop today (i + 1) ws 1 (subDays today 1)
      else if isWithinInterval workoutDate (startOfDay currentDate, endOfDay currentDate)
      then streakLoop today (i + 1) ws (streak + 1) (subDays currentDate 1)
      else streak)"

text \<open>
  \<^verbatim>\<open>calculateStreak(workoutHistory)\<close>. The clock reading \<^verbatim>\<open>new Date()\<close> is the
  argument \<open>now\<close>.
\<close>

definition calculateStreak :: "instant \<Rightarrow> workout_row list \<Rightarrow> nat" where
  "calculateStreak now workoutHistory =
     (if workoutHistory = [] then 0
      else
        let sortedHistory =
              sortBy (\<lambda>a b. dateGetTime (date b) - dateGetTime (date a)) workoutHistory;
            today = startOfDay now;
            lastWorkoutDate = parseISO (date (sortedHistory ! 0))
        in if differenceInDays today lastWorkoutDate > 1 then 0
           else streakLoop today 0 sortedHistory 0 today)"

text \<open>\<^verbatim>\<open>new Set(xs)\<close> followed by \<^verbatim>\<open>Array.from\<close>: the first occurrence of each
  element, in insertion order.\<close>

definition setToArray :: "'a list \<Rightarrow> 'a list" where
  "setToArray xs = rev (remdups (rev xs))"

text \<open>
  The scanning loop of \<^verbatim>\<open>calculateLongestStreak\<close>: \<open>previous\<close> is
  \<^verbatim>\<open>sortedDays[i - 1]\<close>, the list holds \<^verbatim>\<open>sortedDays[i]\<close> onwards.
\<close>

fun longestLoop :: "calday \<Rightarrow> calday list \<Rightarrow> nat \<Rightarrow> nat \<Rightarrow> nat" where
  "longestLoop previous [] currentStreak longestStreak = longestStreak"
| "longestLoop previous (d # ds) currentStreak longestStreak =
     (let currentDay = parseISO d;
          previousDay = parseISO previous;
          currentStreak' =
            (if differenceInDays currentDay previousDay = 1 then currentStreak + 1 else 1);
          longestStreak' =
            (if currentStreak' > longestStreak then currentStreak' else longestStreak)
      in longestLoop d ds currentStreak' longestStreak')"

text \<open>
  \<^verbatim>\<open>calculateLongestStreak(workoutHistory)\<close>. It reads no clock; the time zone of the
  process enters through \<^verbatim>\<open>toISOString\<close>, which renders the local midnight of each
  row's date in UTC, with the offset in force at that midnight.
\<close>

definition calculateLongestStreak :: "(instant \<Rightarrow> int) \<Rightarrow> workout_row list \<Rightarrow> nat" where
  "calculateLongestStreak off workoutHistory =
     (if workoutHistory = [] then 0
      else
        let workoutDays =
              setToArray
                (map (\<lambda>workout. toISODay off (startOfDay (parseISO (date workout))))
                   workoutHistory);
            sortedDays = sortBy (\<lambda>a b. if a < b then - 1 else if b < a then 1 else 0) workoutDays
        in longestLoop (sortedDays ! 0) (tl sortedDays) 1 1)"

section \<open>The edge function: \<^verbatim>\<open>src/supabase/functions/update-stats/index.ts\<close>\<close>

text \<open>
  The edge function carries its own copies of \<^verbatim>\<open>calculateStreak\<close> and
  \<^verbatim>\<open>calculateLongestStreak\<close>, token for token those of \<^verbatim>\<open>streakUtils.ts\<close>; the
  definitions above stand for both. \<^verbatim>\<open>calculateAverageWorkoutDuration\<close> divides and
  rounds in double arithmetic; the handler below takes it as the parameter \<open>avg\<close>.

  What the outside world answers during one request is collected in a record: the
  clock, the time zone, and the results \<^verbatim>\<open>{ data, error }\<close> of the three database
  calls.
\<close>

record pg_error =
  err_code :: string
  err_message :: string

record env =
  clock :: instant
  tzOffset :: "instant \<Rightarrow> int"
  typeErrorMessage :: string
  historyData :: "workout_row list option"
  historyError :: "pg_error option"
  existingStats :: "string option"
  statsError :: "pg_error option"
  writeError :: "pg_error option"
  updatedAt :: string

text \<open>
  A request: its method, and what \<^verbatim>\<open>await req.json()\<close> gives (\<open>Inl m\<close>: the promise
  rejects with an error of message \<open>m\<close>).
\<close>

record request =
  req_method :: string
  req_json :: "string + json"

text \<open>A response; \<open>body\<close> is the value handed to \<^verbatim>\<open>JSON.stringify\<close>, \<open>None\<close> for
  the \<^verbatim>\<open>null\<close> body.\<close>

record response =
  status :: nat
  headers :: "(string \<times> string) list"
  body :: "json option"

text \<open>The write to \<^verbatim>\<open>user_stats\<close> that a request performs.\<close>

datatype db_write =
    UpdateStats json "(string \<times> json) list"
  | InsertStats "(string \<times> json) list"

definition corsHeaders :: "(string \<times> string) list" where
  "corsHeaders =
     [(''Access-Control-Allow-Origin'', ''*''),
      (''Access-Control-Allow-Methods'', ''GET, POST, OPTIONS''),
      (''Access-Control-Allow-Headers'', ''Content-Type, Authorization'')]"

definition jsonResponse :: "nat \<Rightarrow> json \<Rightarrow> response" where
  "jsonResponse st b =
     \<lparr>status = st,
      headers = (''Content-Type'', ''application/json'') # corsHeaders,
      body = Some b\<rparr>"

text \<open>Reading a property of a parsed JSON value; \<open>None\<close> is \<^verbatim>\<open>undefined\<close>. For a
  repeated key \<^verbatim>\<open>JSON.parse\<close> keeps the last value.\<close>

fun getProp :: "json \<Rightarrow> string \<Rightarrow> json option" where
  "getProp (JObj kvs) k = map_of (rev kvs) k"
| "getProp _ k = None"

text \<open>JavaScript truthiness of a value that came out of \<^verbatim>\<open>JSON.parse\<close>.\<close>

fun truthy :: "json option \<Rightarrow> bool" where
  "truthy None = False"
| "truthy (Some JNull) = False"
| "truthy (Some (JBool b)) = b"
| "truthy (Some (JNum n)) = (n \<noteq> 0)"
| "truthy (Some (JStr s)) = (s \<noteq> [])"
| "truthy (Some (JArr xs)) = True"
| "truthy (Some (JObj kvs)) = True"

text \<open>
  The body of the \<^verbatim>\<open>try\<close> block; \<open>Inl m\<close> is a thrown error of message \<open>m\<close>.
  Destructuring \<^verbatim>\<open>null\<close> throws a \<^verbatim>\<open>TypeError\<close>.
\<close>

definition handlerBody ::
  "(workout_row list \<Rightarrow> int) \<Rightarrow> env \<Rightarrow> request \<Rightarrow> string + (db_write option \<times> response)"
where
  "handlerBody avg e req =
     (case req_json req of
        Inl m \<Rightarrow> Inl m
      | Inr JNull \<Rightarrow> Inl (typeErrorMessage e)
      | Inr parsed \<Rightarrow>
          let uid = getProp parsed ''user_id'' in
          if \<not> truthy uid
          then Inr (None, jsonResponse 400 (JObj [(''error'', JStr ''User ID is required'')]))
          else
            (case historyError e of
               Some historyErr \<Rightarrow> Inl (err_message historyErr)
             | None \<Rightarrow>
                 let workoutHistory = (case historyData e of None \<Rightarrow> [] | Some h \<Rightarrow> h);
                     totalWorkouts = int (length workoutHistory);
                     currentStreak = int (calculateStreak (clock e) workoutHistory);
                     longestStreak = int (calculateLongestStreak (tzOffset e) workoutHistory);
                     averageWorkoutDuration = avg workoutHistory;
                     stats =
                       [(''total_workouts'', JNum totalWorkouts),
                        (''current_streak'', JNum currentStreak),
                        (''longest_streak'', JNum longestStreak),
                        (''average_workout_duration'', JNum averageWorkoutDuration)]
                 in
                 if (case statsError e of
                       None \<Rightarrow> False
                     | Some statsErr \<Rightarrow> err_code statsErr \<noteq> ''PGRST116'')
                 then Inl (err_message (the (statsError e)))
                 else
                   let write =
                         (case existingStats e of
                            Some _ \<Rightarrow>
                              UpdateStats (the uid)
                                (stats @ [(''updated_at'', JStr (updatedAt e))])
                          | None \<Rightarrow> InsertStats ((''user_id'', the uid) # stats))
                   in
                   (case writeError e of
                      Some writeErr \<Rightarrow> Inl (err_message writeErr)
                    | None \<Rightarrow>
                        Inr (Some write,
                             jsonResponse 200
                               (JObj [(''success'', JBool True), (''stats'', JObj stats)])))))"

text \<open>The handler passed to \<^verbatim>\<open>Deno.serve\<close>.\<close>

definition handler ::
  "(workout_row list \<Rightarrow> int) \<Rightarrow> env \<Rightarrow> request \<Rightarrow> db_write option \<times> response"
where
  "handler avg e req =
     (if req_method req = ''OPTIONS''
      then (None, \<lparr>status = 200, headers = corsHeaders, body = None\<rparr>)
      else
        (case handlerBody avg e req of
           Inr r \<Rightarrow> r
         | Inl m \<Rightarrow> (None, jsonResponse 500 (JObj [(''error'', JStr m)]))))"

text \<open>The names of the top-level fields of a response body.\<close>

fun fieldNames :: "json option \<Rightarrow> string list" where
  "fieldNames (Some (JObj kvs)) = map fst kvs"
| "fieldNames _ = []"

section \<open>Schedule screen: \<^verbatim>\<open>src/app/(tabs)/schedule.tsx\<close>\<close>

text \<open>
  The \<^verbatim>\<open>days\<close> table of the schedule screen, as pairs \<open>(id, label)\<close>. It is
  Monday-first: Monday has index 0 and Sunday index 6.
\<close>

definition schedule_days :: "(string \<times> string) list" where
  "schedule_days =
     [(''monday'', ''Mon''), (''tuesday'', ''Tue''), (''wednesday'', ''Wed''),
      (''thursday'', ''Thu''), (''friday'', ''Fri''), (''saturday'', ''Sat''),
      (''sunday'', ''Sun'')]"

text \<open>The result object \<^verbatim>\<open>{ isValid: boolean; message?: string }\<close>.\<close>

record validation =
  isValid :: bool
  message :: "string option"

text \<open>
  \<^verbatim>\<open>validateDayToggle(dayId, isAdding)\<close>; the React state \<^verbatim>\<open>selectedDays\<close> that the
  callback closes over is the first argument. Nothing in the body of the
  \<^verbatim>\<open>try\<close> block throws, so the \<^verbatim>\<open>catch\<close> branch is not reachable.
\<close>

definition validateDayToggle :: "string list \<Rightarrow> string \<Rightarrow> bool \<Rightarrow> validation" where
  "validateDayToggle selectedDays dayId isAdding =
     (if \<not> isAdding then \<lparr>isValid = True, message = None\<rparr>
      else
        let newSelection = selectedDays @ [dayId] in
        if length newSelection > 4
        then \<lparr>isValid = False, message = Some ''Maximum of 4 workout days allowed''\<rparr>
        else
          let dayIndices =
                sortBy (\<lambda>a b. a - b)
                  (map (\<lambda>d. findIndex (\<lambda>day. fst day = d) schedule_days) newSelection);
              hasConsecutiveDays =
                some_indexed
                  (\<lambda>dayIndex i.
                     if i = 0 then False
                     else \<bar>dayIndex - dayIndices ! (i - 1)\<bar> = 1)
                  dayIndices
          in if hasConsecutiveDays
             then \<lparr>isValid = False, message = Some ''Rest day required between workouts''\<rparr>
             else \<lparr>isValid = True, message = None\<rparr>)"

section \<open>Onboarding screen: \<^verbatim>\<open>src/app/onboarding.tsx\<close>\<close>

text \<open>The \<^verbatim>\<open>days\<close> table of the onboarding screen; this one is Sunday-first.\<close>

definition onboarding_days :: "(string \<times> string) list" where
  "onboarding_days =
     [(''sunday'', ''Sunday''), (''monday'', ''Monday''), (''tuesday'', ''Tuesday''),
      (''wednesday'', ''Wednesday''), (''thursday'', ''Thursday''),
      (''friday'', ''Friday''), (''saturday'', ''Saturday'')]"

text \<open>
  \<^verbatim>\<open>toggleDay(dayId)\<close> of the onboarding screen: the state updater passed to
  \<^verbatim>\<open>setSelectedDays\<close>, from the current selection to the next one. The indices are
  compared in selection order; this function does not sort them.
\<close>

definition toggleDay :: "string list \<Rightarrow> string \<Rightarrow> string list" where
  "toggleDay current dayId =
     (let newSelection =
            (if dayId \<in> set current then filter (\<lambda>d. d \<noteq> dayId) current
             else current @ [dayId]);
          dayIndices = map (\<lambda>d. findIndex (\<lambda>day. fst day = d) onboarding_days) newSelection;
          hasConsecutiveDays =
            some_indexed
              (\<lambda>dayIndex i.
                 if i = 0 then False
                 else let prevDayIndex = dayIndices ! (i - 1)
                      in \<bar>dayIndex - prevDayIndex\<bar> = 1)
              dayIndices
      in if hasConsecutiveDays then current else newSelection)"

text \<open>The initial state \<^verbatim>\<open>useState(['monday', 'wednesday', 'friday'])\<close>.\<close>

definition onboarding_default :: "string list" where
  "onboarding_default = [''monday'', ''wednesday'', ''friday'']"

text \<open>The selection after a sequence of taps, starting from a given selection.\<close>

definition toggleDays :: "string list \<Rightarrow> string list \<Rightarrow> string list" where
  "toggleDays current dayIds = foldl toggleDay current dayIds"

text \<open>The position of a day id in each of the two \<^verbatim>\<open>days\<close> tables, as the
  validators compute it.\<close>

definition scheduleIndex :: "string \<Rightarrow> int" where
  "scheduleIndex d = findIndex (\<lambda>day. fst day = d) schedule_days"

definition onboardingIndex :: "string \<Rightarrow> int" where
  "onboardingIndex d = findIndex (\<lambda>day. fst day = d) onboarding_days"

text \<open>
  A sample exchange with the edge function: a POST with \<^verbatim>\<open>{ "user_id": "u1" }\<close> at
  10:00 on day 100, in UTC, when the database holds one history row, dated that day and
  with no exercises, and no stats row yet, and every database call succeeds. For rows
  without exercises \<^verbatim>\<open>calculateAverageWorkoutDuration\<close> returns 0 (it rounds
  \<open>0 / n * 5\<close>, and returns 0 at once for the empty history).
\<close>

definition sampleAverage :: "workout_row list \<Rightarrow> int" where
  "sampleAverage h = 0"

definition sampleEnv :: env where
  "sampleEnv =
     \<lparr>clock = 100 * msPerDay + 36000000, tzOffset = utcZone, typeErrorMessage = [],
      historyData =
        Some [\<lparr>row_id = ''r1'', user_id = ''u1'', date = 100, exercises = JArr [],
               created_at = []\<rparr>],
      historyError = None, existingStats = None, statsError = None, writeError = None,
      updatedAt = []\<rparr>"

definition sampleRequest :: request where
  "sampleRequest =
     \<lparr>req_method = ''POST'', req_json = Inr (JObj [(''user_id'', JStr ''u1'')])\<rparr>"

text \<open>A history row for a given day, the other columns fixed; used in the examples.\<close>

definition rowOn :: "calday \<Rightarrow> workout_row" where
  "rowOn d = \<lparr>row_id = [], user_id = [], date = d, exercises = JArr [], created_at = []\<rparr>"

section \<open>Properties of the helpers\<close>

subsection \<open>Sorting\<close>

lemma insertBy_insort_key:
  assumes "\<And>x y. (cmp x y \<le> 0) = (f x \<le> f y)"
  shows "insertBy cmp x ys = insort_key f x ys"
  by (induction ys) (simp_all add: assms)

lemma sortBy_sort_key:
  assumes "\<And>x y. (cmp x y \<le> 0) = (f x \<le> f y)"
  shows "sortBy cmp xs = sort_key f xs"
proof -
  have "insertBy cmp = insort_key f"
    using insertBy_insort_key [of cmp f, OF assms] by (intro ext)
  then show ?thesis
    by (simp add: sortBy_def sort_key_def)
qed

lemma sortBy_numeric: "sortBy (\<lambda>a b. a - b) (xs :: int list) = sort xs"
  by (rule sortBy_sort_key) simp

lemma sortBy_default:
  "sortBy (\<lambda>a b. if a < b then - 1 else if b < a then 1 else 0) (xs :: int list) = sort xs"
  by (rule sortBy_sort_key) auto

lemma sortBy_history:
  "sortBy (\<lambda>a b. dateGetTime (date b) - dateGetTime (date a)) h =
   sort_key (\<lambda>w. - date w) h"
  by (rule sortBy_sort_key) (simp add: dateGetTime_def msPerDay_def)

lemma sorted_rev_of_neg:
  "sorted (map uminus (L :: int list)) \<Longrightarrow> sorted (rev L)"
  by (induction L) (auto simp: sorted_append)

text \<open>The sorted history lists the dates in descending order.\<close>

lemma map_date_sortBy_history:
  "map date (sortBy (\<lambda>a b. dateGetTime (date b) - dateGetTime (date a)) h) =
   rev (sort (map date h))"
proof -
  let ?L = "map date (sort_key (\<lambda>w. - date w) h)"
  have "sorted (map (\<lambda>w. - date w) (sort_key (\<lambda>w. - date w) h))"
    by (rule sorted_sort_key)
  then have "sorted (map uminus ?L)"
    by (simp add: comp_def)
  then have "sorted (rev ?L)"
    by (rule sorted_rev_of_neg)
  moreover have "mset (rev ?L) = mset (map date h)"
    by simp
  ultimately have "sort (map date h) = rev ?L"
    by (metis properties_for_sort)
  then show ?thesis
    by (simp add: sortBy_history)
qed

subsection \<open>Dates\<close>

lemma msPerDay_pos: "0 < msPerDay"
  by (simp add: msPerDay_def)

lemma startOfDay_parseISO [simp]: "startOfDay (parseISO d) = parseISO d"
  using msPerDay_pos by (simp add: startOfDay_def parseISO_def)

lemma startOfDay_dayOf: "startOfDay t = parseISO (dayOf t)"
  by (simp add: startOfDay_def parseISO_def dayOf_def)

lemma startOfDay_idem [simp]: "startOfDay (startOfDay t) = startOfDay t"
  by (metis startOfDay_dayOf startOfDay_parseISO)

lemma dayOf_parseISO [simp]: "dayOf (parseISO d) = d"
  using msPerDay_pos by (simp add: dayOf_def parseISO_def)

lemma parseISO_le_iff [simp]: "(parseISO a \<le> parseISO b) = (a \<le> b)"
  using msPerDay_pos by (simp add: parseISO_def)

lemma subDays_parseISO [simp]: "subDays (parseISO d) n = parseISO (d - n)"
  by (simp add: subDays_def parseISO_def algebra_simps)

lemma differenceInDays_parseISO [simp]:
  "differenceInDays (parseISO a) (parseISO b) = a - b"
proof -
  have eq: "a * msPerDay - b * msPerDay = (a - b) * msPerDay"
    by (simp add: algebra_simps)
  have neg: "- ((a - b) * msPerDay) = (b - a) * msPerDay"
    by (simp add: algebra_simps)
  have nz: "msPerDay \<noteq> 0" using msPerDay_pos by simp
  show ?thesis
    unfolding differenceInDays_def parseISO_def Let_def eq neg
    using nz by simp
qed

text \<open>A local midnight lies within a day exactly when it is that day's midnight.\<close>

lemma within_day_parseISO [simp]:
  "isWithinInterval (parseISO d) (parseISO c, endOfDay (parseISO c)) = (d = c)"
proof -
  have "parseISO (c + 1) = parseISO c + msPerDay"
    by (simp add: parseISO_def algebra_simps)
  then have "parseISO d \<le> parseISO c + msPerDay - 1 \<longleftrightarrow> parseISO d < parseISO (c + 1)"
    by linarith
  also have "\<dots> \<longleftrightarrow> d < c + 1"
    using msPerDay_pos by (simp add: parseISO_def)
  finally have "parseISO d \<le> parseISO c + msPerDay - 1 \<longleftrightarrow> d \<le> c"
    by simp
  then show ?thesis
    by (auto simp add: isWithinInterval_def endOfDay_def)
qed

text \<open>Rendering a local midnight in UTC shifts the day by what the offset at that
  midnight amounts to in days.\<close>

lemma toISODay_parseISO:
  "toISODay off (parseISO d) = d + (- off (parseISO d)) div msPerDay"
proof -
  have nz: "msPerDay \<noteq> 0" using msPerDay_pos by simp
  have "(d * msPerDay - off (parseISO d)) div msPerDay =
        (- off (parseISO d) + d * msPerDay) div msPerDay"
    by (simp add: algebra_simps)
  also have "\<dots> = d + (- off (parseISO d)) div msPerDay"
    using nz by (rule div_mult_self1)
  finally show ?thesis
    by (simp add: toISODay_def parseISO_def)
qed

section \<open>The longest streak\<close>

text \<open>
  One step of the scan, and its invariant: after the days up to \<open>p\<close> have been read
  (the set \<open>P\<close>), \<open>cur\<close> is the length of the run of consecutive days that ends at
  \<open>p\<close>, and \<open>lng\<close> is the length of the longest run inside \<open>P\<close>.
\<close>

lemma longestLoop_step:
  "longestLoop p (d # ds) cur lng =
     (let cur' = (if d - p = 1 then cur + 1 else 1)
      in longestLoop d ds cur' (if cur' > lng then cur' else lng))"
  by (simp add: Let_def)

lemma longestLoop_inv:
  assumes "sorted_wrt (<) (p # ds)"
      and "p \<in> P" and "\<forall>x\<in>P. x \<le> p"
      and "1 \<le> cur" and "cur \<le> lng"
      and "{p - int cur + 1 .. p} \<subseteq> P" and "p - int cur \<notin> P"
      and "\<exists>d. {d ..< d + int lng} \<subseteq> P"
      and "\<forall>d n. {d ..< d + int n} \<subseteq> P \<longrightarrow> n \<le> lng"
  shows "(\<exists>d. {d ..< d + int (longestLoop p ds cur lng)} \<subseteq> P \<union> set ds) \<and>
         (\<forall>d n. {d ..< d + int n} \<subseteq> P \<union> set ds \<longrightarrow> n \<le> longestLoop p ds cur lng)"
  using assms
proof (induction ds arbitrary: p cur lng P)
  case Nil
  then show ?case by simp
next
  case (Cons d ds)
  define cur' where "cur' = (if d - p = 1 then cur + 1 else 1)"
  define lng' where "lng' = (if cur' > lng then cur' else lng)"
  define P' where "P' = insert d P"
  have pd: "p < d" and srt: "sorted_wrt (<) (d # ds)"
    using Cons.prems(1) by auto
  have a1: "d \<in> P'" by (simp add: P'_def)
  have a2: "\<forall>x\<in>P'. x \<le> d" using Cons.prems(3) pd by (auto simp: P'_def)
  have a3: "1 \<le> cur'" using Cons.prems(4) by (simp add: cur'_def)
  have a4: "cur' \<le> lng'" by (simp add: lng'_def)
  have a5: "{d - int cur' + 1 .. d} \<subseteq> P'"
  proof (rule subsetI)
    fix x assume x: "x \<in> {d - int cur' + 1 .. d}"
    show "x \<in> P'"
    proof (cases "x = d")
      case True
      then show ?thesis by (simp add: P'_def)
    next
      case False
      with x have "d - p = 1 \<and> x \<in> {p - int cur + 1 .. p}"
        by (auto simp: cur'_def split: if_splits)
      then show ?thesis using Cons.prems(6) by (auto simp: P'_def)
    qed
  qed
  have a6: "d - int cur' \<notin> P'"
  proof (cases "d - p = 1")
    case True
    then have "d - int cur' = p - int cur"
      by (simp add: cur'_def)
    moreover have "p - int cur \<noteq> d"
      using pd by simp
    ultimately show ?thesis
      using Cons.prems(7) by (simp add: P'_def)
  next
    case False
    then have "d - int cur' = d - 1" "p < d - 1"
      using pd by (simp_all add: cur'_def)
    then show ?thesis
      using Cons.prems(3) by (auto simp: P'_def)
  qed
  have a7: "\<exists>e. {e ..< e + int lng'} \<subseteq> P'"
  proof (cases "cur' > lng")
    case True
    then have "{d - int cur' + 1 ..< d - int cur' + 1 + int lng'} \<subseteq> P'"
      using a5 by (auto simp: lng'_def)
    then show ?thesis by blast
  next
    case False
    then show ?thesis using Cons.prems(8) by (auto simp: lng'_def P'_def)
  qed
  have a8: "\<forall>e n. {e ..< e + int n} \<subseteq> P' \<longrightarrow> n \<le> lng'"
  proof (intro allI impI)
    fix e n assume run: "{e ..< e + int n} \<subseteq> P'"
    show "n \<le> lng'"
    proof (cases "d \<in> {e ..< e + int n}")
      case False
      then have "{e ..< e + int n} \<subseteq> P" using run by (auto simp: P'_def)
      then have "n \<le> lng" using Cons.prems(9) by blast
      then show ?thesis by (simp add: lng'_def)
    next
      case True
      have "e + int n - 1 \<in> P'" using run True by auto
      then have top: "e + int n - 1 \<le> d" using a2 by blast
      have "d - int cur' \<notin> {e ..< e + int n}" using a6 run by blast
      then have "d - int cur' < e" using True a3 by auto
      then have "n \<le> cur'" using top by linarith
      then show ?thesis using a4 by linarith
    qed
  qed
  have "(\<exists>e. {e ..< e + int (longestLoop d ds cur' lng')} \<subseteq> P' \<union> set ds) \<and>
        (\<forall>e n. {e ..< e + int n} \<subseteq> P' \<union> set ds \<longrightarrow> n \<le> longestLoop d ds cur' lng')"
    by (rule Cons.IH [OF srt a1 a2 a3 a4 a5 a6 a7 a8])
  moreover have "longestLoop p (d # ds) cur lng = longestLoop d ds cur' lng'"
    by (simp add: cur'_def lng'_def Let_def)
  moreover have "P' \<union> set ds = P \<union> set (d # ds)"
    by (simp add: P'_def)
  ultimately show ?case by simp
qed


lemma set_setToArray [simp]: "set (setToArray xs) = set xs"
  by (simp add: setToArray_def)

lemma distinct_setToArray [simp]: "distinct (setToArray xs)"
  by (simp add: setToArray_def)

lemma singleton_run:
  assumes "{d ..< d + int n} \<subseteq> {x :: int}"
  shows "n \<le> 1"
proof (rule ccontr)
  assume "\<not> n \<le> 1"
  then have "d \<in> {d ..< d + int n}" "d + 1 \<in> {d ..< d + int n}"
    by auto
  with assms have "d = x" "d + 1 = x" by blast+
  then show False by simp
qed

text \<open>
  Where the offsets at the midnights of all the rows amount to the same shift in days
  (a zone without clock changes, or a history that lies on one side of a change), the
  scan returns the length of the longest run of consecutive days of the history.
\<close>

lemma calculateLongestStreak_uniform_shift:
  assumes "h \<noteq> []"
      and "\<forall>w\<in>set h. (- off (parseISO (date w))) div msPerDay = c"
  shows "(\<exists>d. {d ..< d + int (calculateLongestStreak off h)} \<subseteq> date ` set h) \<and>
         (\<forall>d n. {d ..< d + int n} \<subseteq> date ` set h \<longrightarrow> n \<le> calculateLongestStreak off h)"
proof -
  define ks where "ks = map (\<lambda>w. date w + c) h"
  define sortedDays where "sortedDays = sort (setToArray ks)"
  define r where "r = calculateLongestStreak off h"
  have keys: "map (\<lambda>workout. toISODay off (parseISO (date workout))) h = ks"
    unfolding ks_def using assms(2) by (intro map_cong) (simp_all add: toISODay_parseISO)
  have setK: "set sortedDays = (\<lambda>d. d + c) ` date ` set h"
    by (auto simp: sortedDays_def ks_def)
  have "sortedDays \<noteq> []"
    using assms(1) setK by (metis empty_is_image set_empty)
  then obtain x xs where xxs: "sortedDays = x # xs"
    by (cases sortedDays) auto
  have strict: "sorted_wrt (<) (x # xs)"
    using xxs [symmetric] by (simp add: sortedDays_def strict_sorted_iff)
  have "r = (let sd = sort (setToArray ks) in longestLoop (sd ! 0) (tl sd) 1 1)"
    using assms(1)
    by (simp add: r_def calculateLongestStreak_def sortBy_default keys)
  then have r_eq: "r = longestLoop x xs 1 1"
    using xxs by (simp add: sortedDays_def)
  have inv: "(\<exists>d. {d ..< d + int r} \<subseteq> {x} \<union> set xs) \<and>
             (\<forall>d n. {d ..< d + int n} \<subseteq> {x} \<union> set xs \<longrightarrow> n \<le> r)"
    unfolding r_eq
  proof (rule longestLoop_inv [OF strict])
    show "\<exists>d. {d ..< d + int 1} \<subseteq> {x}"
      by (intro exI [of _ x]) auto
    show "\<forall>d n. {d ..< d + int n} \<subseteq> {x} \<longrightarrow> n \<le> 1"
      using singleton_run by blast
  qed auto
  have K: "{x} \<union> set xs = (\<lambda>d. d + c) ` date ` set h"
    using setK xxs by simp
  have ex: "\<exists>d. {d ..< d + int r} \<subseteq> date ` set h"
  proof -
    from inv K obtain d where d: "{d ..< d + int r} \<subseteq> (\<lambda>d. d + c) ` date ` set h"
      by auto
    have "{d - c ..< d - c + int r} \<subseteq> date ` set h"
    proof
      fix y assume "y \<in> {d - c ..< d - c + int r}"
      then have "y + c \<in> {d ..< d + int r}" by auto
      with d have "y + c \<in> (\<lambda>d. d + c) ` date ` set h" by blast
      then show "y \<in> date ` set h" by auto
    qed
    then show ?thesis by blast
  qed
  have all: "\<forall>d n. {d ..< d + int n} \<subseteq> date ` set h \<longrightarrow> n \<le> r"
  proof (intro allI impI)
    fix d n assume run: "{d ..< d + int n} \<subseteq> date ` set h"
    have "{d + c ..< d + c + int n} \<subseteq> (\<lambda>d. d + c) ` date ` set h"
    proof
      fix y assume "y \<in> {d + c ..< d + c + int n}"
      then have "y - c \<in> {d ..< d + int n}" by auto
      with run have "y - c \<in> date ` set h" by blast
      then have "(y - c) + c \<in> (\<lambda>d. d + c) ` date ` set h" by (rule imageI)
      then show "y \<in> (\<lambda>d. d + c) ` date ` set h" by simp
    qed
    with inv K show "n \<le> r" by simp
  qed
  from ex all show ?thesis by (simp add: r_def)
qed

text \<open>In any time zone the result is a function of the set of days of the history.\<close>

lemma calculateLongestStreak_same_days:
  assumes "date ` set h1 = date ` set h2" and "h1 \<noteq> []" and "h2 \<noteq> []"
  shows "calculateLongestStreak off h1 = calculateLongestStreak off h2"
proof -
  let ?key = "\<lambda>workout. toISODay off (startOfDay (parseISO (date workout)))"
  have "?key ` set h1 = (\<lambda>d. toISODay off (startOfDay (parseISO d))) ` date ` set h1"
    by (simp add: image_image)
  also have "\<dots> = (\<lambda>d. toISODay off (startOfDay (parseISO d))) ` date ` set h2"
    by (simp only: assms(1))
  also have "\<dots> = ?key ` set h2"
    by (simp add: image_image)
  finally have "set (setToArray (map ?key h1)) = set (setToArray (map ?key h2))"
    by simp
  then have "sort (setToArray (map ?key h1)) = sort (setToArray (map ?key h2))"
    by (intro sorted_distinct_set_unique) simp_all
  then show ?thesis
    using assms(2,3) by (simp only: calculateLongestStreak_def sortBy_default if_False Let_def)
qed

text \<open>
  Claim C3. The claim expects the length of the longest run of consecutive calendar days
  of the history. \<^verbatim>\<open>calculateLongestStreak\<close> keys every row by the UTC day of the
  local midnight of its date. In Europe/London the midnight of 31 March 2024 (day 19813)
  is still on winter time and that of 1 April is on summer time, 23:00 UTC of the day
  before, so both rows get the key of 31 March: for the five consecutive days from
  28 March to 1 April the function returns 4, and the runs 27 to 30 March and
  1 to 6 April, of lengths 4 and 6 with 31 March missing between them, are counted as
  one run of 10. At the change back, 27 and 28 October (days 20023 and 20024) get keys
  two days apart, and the function returns 1 for these two consecutive days.
\<close>

theorem calculateLongestStreak_across_clock_change:
  "calculateLongestStreak europeLondon
     (map rowOn [19810, 19811, 19812, 19813, 19814]) = 4 \<and>
   calculateLongestStreak europeLondon
     (map rowOn [19809, 19810, 19811, 19812, 19814, 19815, 19816, 19817, 19818, 19819]) = 10 \<and>
   calculateLongestStreak europeLondon (map rowOn [20023, 20024]) = 1"
  by (simp add: calculateLongestStreak_def toISODay_def europeLondon_def rowOn_def
      parseISO_def startOfDay_def differenceInDays_def msPerDay_def setToArray_def
      sortBy_def Let_def)

section \<open>The current streak\<close>

text \<open>
  With \<open>today\<close> and \<open>currentDate\<close> at local midnights, one round of the counting loop
  compares day numbers. The loop reads nothing of a row but its date.
\<close>

lemma streakLoop_step:
  "streakLoop (parseISO T) i (w # ws) s (parseISO c) =
     (if i = 0 \<and> date w = T then streakLoop (parseISO T) (i + 1) ws 1 (parseISO (T - 1))
      else if date w = c then streakLoop (parseISO T) (i + 1) ws (s + 1) (parseISO (c - 1))
      else s)"
  by (simp add: Let_def)

lemma streakLoop_dates:
  "map date ws = map date ws' \<Longrightarrow> streakLoop t i ws s c = streakLoop t i ws' s c"
proof (induction ws arbitrary: ws' i s c)
  case Nil
  then show ?case by simp
next
  case (Cons w ws)
  then obtain w' ws'' where ws': "ws' = w' # ws''" and d: "date w = date w'"
    and rest: "map date ws = map date ws''"
    by (cases ws') auto
  show ?case
    unfolding ws' using d Cons.IH [OF rest] by (simp add: Let_def)
qed

lemma sortBy_history_nonempty:
  "h \<noteq> [] \<Longrightarrow> sortBy (\<lambda>a b. dateGetTime (date b) - dateGetTime (date a)) h \<noteq> []"
  unfolding sortBy_history by (metis set_sort set_empty)

lemma set_sortBy_history [simp]:
  "set (sortBy (\<lambda>a b. dateGetTime (date b) - dateGetTime (date a)) h) = set h"
  by (simp add: sortBy_history)

lemma calculateStreak_unfold:
  assumes "h \<noteq> []"
  shows "calculateStreak now h =
     (let sh = sortBy (\<lambda>a b. dateGetTime (date b) - dateGetTime (date a)) h
      in if dayOf now - date (sh ! 0) > 1 then 0
         else streakLoop (parseISO (dayOf now)) 0 sh 0 (parseISO (dayOf now)))"
  using assms
  by (simp add: calculateStreak_def Let_def startOfDay_dayOf)

lemma calculateStreak_via_dates:
  assumes "h \<noteq> []"
      and "map date (sortBy (\<lambda>a b. dateGetTime (date b) - dateGetTime (date a)) h) = ds"
  shows "calculateStreak now h =
     (if dayOf now - ds ! 0 > 1 then 0
      else streakLoop (parseISO (dayOf now)) 0 (map rowOn ds) 0 (parseISO (dayOf now)))"
proof -
  let ?sh = "sortBy (\<lambda>a b. dateGetTime (date b) - dateGetTime (date a)) h"
  have ne: "?sh \<noteq> []" using assms(1) by (rule sortBy_history_nonempty)
  then have "date (?sh ! 0) = map date ?sh ! 0"
    by (simp add: nth_map)
  then have first: "date (?sh ! 0) = ds ! 0"
    using assms(2) by simp
  have "map date ?sh = map date (map rowOn ds)"
    using assms(2) by (simp add: comp_def rowOn_def)
  then have "streakLoop (parseISO (dayOf now)) 0 ?sh 0 (parseISO (dayOf now)) =
             streakLoop (parseISO (dayOf now)) 0 (map rowOn ds) 0 (parseISO (dayOf now))"
    by (rule streakLoop_dates)
  then show ?thesis
    using first by (simp add: calculateStreak_unfold [OF assms(1)] Let_def)
qed

lemma calculateStreak_desc:
  assumes "h \<noteq> []"
  shows "calculateStreak now h =
     (if dayOf now - rev (sort (map date h)) ! 0 > 1 then 0
      else streakLoop (parseISO (dayOf now)) 0 (map rowOn (rev (sort (map date h)))) 0
             (parseISO (dayOf now)))"
  by (rule calculateStreak_via_dates [OF assms map_date_sortBy_history])

lemma date_rowOn [simp]: "date (rowOn d) = d"
  by (simp add: rowOn_def)

lemma sort_of_mset:
  "mset xs = mset ys \<Longrightarrow> sorted ys \<Longrightarrow> sort xs = ys"
  by (metis properties_for_sort)

lemma dayOf_example [simp]: "dayOf (100 * msPerDay + 36000000) = 100"
  by (simp add: dayOf_def msPerDay_def)

lemma calculateStreak_without_today:
  assumes "\<forall>w\<in>set h. date w \<noteq> dayOf now"
  shows "calculateStreak now h = 0"
proof (cases "h = []")
  case True
  then show ?thesis by (simp add: calculateStreak_def)
next
  case False
  let ?sh = "sortBy (\<lambda>a b. dateGetTime (date b) - dateGetTime (date a)) h"
  have "?sh \<noteq> []" using False by (rule sortBy_history_nonempty)
  then obtain w ws where sh: "?sh = w # ws" by (cases ?sh) auto
  then have "w \<in> set ?sh" by simp
  then have "date w \<noteq> dayOf now" using assms by simp
  then show ?thesis
    by (simp add: calculateStreak_unfold [OF False] Let_def sh)
qed

text \<open>
  Claim C10. \<^verbatim>\<open>calculateStreak\<close> and \<^verbatim>\<open>calculateLongestStreak\<close> depend only on the
  multiset of the dates in the history: two histories that are reorderings of each
  other, and more generally two histories with the same dates counted with
  multiplicity, whatever their other columns, give the same results.
\<close>

theorem calculateStreak_same_dates:
  "(mset h1 = mset h2 \<longrightarrow>
      calculateStreak now h1 = calculateStreak now h2 \<and>
      calculateLongestStreak off h1 = calculateLongestStreak off h2) \<and>
   (mset (map date h1) = mset (map date h2) \<longrightarrow>
      calculateStreak now h1 = calculateStreak now h2 \<and>
      calculateLongestStreak off h1 = calculateLongestStreak off h2)"
proof -
  have main: "calculateStreak now h1 = calculateStreak now h2 \<and>
      calculateLongestStreak off h1 = calculateLongestStreak off h2"
    if eq: "mset (map date h1) = mset (map date h2)"
  proof (cases "h1 = []")
    case True
    with eq have "h2 = []" by simp
    with True show ?thesis by simp
  next
    case False
    with eq have ne2: "h2 \<noteq> []" by auto
    have "sort (map date h1) = sort (map date h2)"
      using eq by (metis properties_for_sort sorted_sort mset_sort)
    then have cs: "calculateStreak now h1 = calculateStreak now h2"
      by (simp add: calculateStreak_desc [OF False] calculateStreak_desc [OF ne2])
    have "set (map date h1) = set (map date h2)"
      using eq by (rule mset_eq_setD)
    then have S: "date ` set h1 = date ` set h2" by simp
    have "calculateLongestStreak off h1 = calculateLongestStreak off h2"
      using S False ne2 by (rule calculateLongestStreak_same_days)
    then show ?thesis using cs by simp
  qed
  have "mset h1 = mset h2 \<Longrightarrow> mset (map date h1) = mset (map date h2)"
    by (metis mset_map)
  with main show ?thesis by blast
qed


theorem calculateStreak_same_dates_witness:
  "mset [rowOn 100, rowOn 99, rowOn 98] = mset [rowOn 98, rowOn 100, rowOn 99] \<and>
   mset (map date [rowOn 100, rowOn 99, rowOn 98]) =
     mset (map date [(rowOn 98)\<lparr>row_id := ''b''\<rparr>, (rowOn 100)\<lparr>exercises := JNull\<rparr>, rowOn 99]) \<and>
   calculateStreak (100 * msPerDay + 5) [rowOn 100, rowOn 99, rowOn 98] =
     calculateStreak (100 * msPerDay + 5) [rowOn 98, rowOn 100, rowOn 99] \<and>
   calculateStreak (100 * msPerDay + 5) [rowOn 100, rowOn 99, rowOn 98] =
     calculateStreak (100 * msPerDay + 5)
       [(rowOn 98)\<lparr>row_id := ''b''\<rparr>, (rowOn 100)\<lparr>exercises := JNull\<rparr>, rowOn 99] \<and>
   calculateLongestStreak europeLondon [rowOn 100, rowOn 99, rowOn 98] =
     calculateLongestStreak europeLondon [rowOn 98, rowOn 100, rowOn 99] \<and>
   calculateLongestStreak europeLondon [rowOn 100, rowOn 99, rowOn 98] =
     calculateLongestStreak europeLondon
       [(rowOn 98)\<lparr>row_id := ''b''\<rparr>, (rowOn 100)\<lparr>exercises := JNull\<rparr>, rowOn 99]"
proof -
  have m1: "mset [rowOn 100, rowOn 99, rowOn 98] = mset [rowOn 98, rowOn 100, rowOn 99]"
    by simp
  have m2: "mset (map date [rowOn 100, rowOn 99, rowOn 98]) =
     mset (map date [(rowOn 98)\<lparr>row_id := ''b''\<rparr>, (rowOn 100)\<lparr>exercises := JNull\<rparr>, rowOn 99])"
    by (simp add: rowOn_def)
  show ?thesis
    using m1 m2
      calculateStreak_same_dates [of "[rowOn 100, rowOn 99, rowOn 98]"
        "[rowOn 98, rowOn 100, rowOn 99]" "100 * msPerDay + 5" europeLondon]
      calculateStreak_same_dates [of "[rowOn 100, rowOn 99, rowOn 98]"
        "[(rowOn 98)\<lparr>row_id := ''b''\<rparr>, (rowOn 100)\<lparr>exercises := JNull\<rparr>, rowOn 99]"
        "100 * msPerDay + 5" europeLondon]
    by blast
qed

text \<open>
  Claim C6. With completions on exactly today, yesterday and the day before,
  \<^verbatim>\<open>calculateStreak\<close> returns 3; with completions on exactly today and three days ago
  it returns 1. The entries may come in any order.
\<close>

theorem calculateStreak_three_days_and_gap:
  "(mset (map date h) = {#dayOf now, dayOf now - 1, dayOf now - 2#} \<longrightarrow>
      calculateStreak now h = 3) \<and>
   (mset (map date h) = {#dayOf now, dayOf now - 3#} \<longrightarrow> calculateStreak now h = 1)"
proof (intro conjI impI)
  assume m: "mset (map date h) = {#dayOf now, dayOf now - 1, dayOf now - 2#}"
  then have ne: "h \<noteq> []" by auto
  have "mset (map date h) = mset [dayOf now - 2, dayOf now - 1, dayOf now]"
    using m by simp
  then have "sort (map date h) = [dayOf now - 2, dayOf now - 1, dayOf now]"
    by (rule sort_of_mset) simp
  then show "calculateStreak now h = 3"
    by (simp add: calculateStreak_desc [OF ne])
next
  assume m: "mset (map date h) = {#dayOf now, dayOf now - 3#}"
  then have ne: "h \<noteq> []" by auto
  have "mset (map date h) = mset [dayOf now - 3, dayOf now]"
    using m by simp
  then have "sort (map date h) = [dayOf now - 3, dayOf now]"
    by (rule sort_of_mset) simp
  then show "calculateStreak now h = 1"
    by (simp add: calculateStreak_desc [OF ne])
qed

theorem calculateStreak_three_days_and_gap_witness:
  "mset (map date [rowOn 99, rowOn 100, rowOn 98]) =
     {#dayOf (100 * msPerDay + 36000000), dayOf (100 * msPerDay + 36000000) - 1,
       dayOf (100 * msPerDay + 36000000) - 2#} \<and>
   calculateStreak (100 * msPerDay + 36000000) [rowOn 99, rowOn 100, rowOn 98] = 3 \<and>
   mset (map date [rowOn 97, rowOn 100]) =
     {#dayOf (100 * msPerDay + 36000000), dayOf (100 * msPerDay + 36000000) - 3#} \<and>
   calculateStreak (100 * msPerDay + 36000000) [rowOn 97, rowOn 100] = 1"
proof -
  have m1: "mset (map date [rowOn 99, rowOn 100, rowOn 98]) =
     {#dayOf (100 * msPerDay + 36000000), dayOf (100 * msPerDay + 36000000) - 1,
       dayOf (100 * msPerDay + 36000000) - 2#}"
    by simp
  have m2: "mset (map date [rowOn 97, rowOn 100]) =
     {#dayOf (100 * msPerDay + 36000000), dayOf (100 * msPerDay + 36000000) - 3#}"
    by simp
  show ?thesis
    using m1 m2
      calculateStreak_three_days_and_gap [of "[rowOn 99, rowOn 100, rowOn 98]" "100 * msPerDay + 36000000"]
      calculateStreak_three_days_and_gap [of "[rowOn 97, rowOn 100]" "100 * msPerDay + 36000000"]
    by blast
qed

text \<open>
  Claim C5. \<^verbatim>\<open>calculateStreak\<close> returns 0 for the empty history, and for every
  non-empty history whose most recent date is more than one calendar day before today.
\<close>

theorem calculateStreak_zero:
  "calculateStreak now [] = 0 \<and>
   (h \<noteq> [] \<and> Max (date ` set h) + 1 < dayOf now \<longrightarrow> calculateStreak now h = 0)"
proof (intro conjI impI)
  show "calculateStreak now [] = 0"
    by (simp add: calculateStreak_def)
next
  assume a: "h \<noteq> [] \<and> Max (date ` set h) + 1 < dayOf now"
  let ?sh = "sortBy (\<lambda>a b. dateGetTime (date b) - dateGetTime (date a)) h"
  from a have ne: "h \<noteq> []" and old: "Max (date ` set h) + 1 < dayOf now" by blast+
  have "?sh \<noteq> []" using ne by (rule sortBy_history_nonempty)
  then have "?sh ! 0 \<in> set h"
    by (metis nth_mem length_greater_0_conv set_sortBy_history)
  then have "date (?sh ! 0) \<in> date ` set h" by simp
  then have "date (?sh ! 0) \<le> Max (date ` set h)" by simp
  with old have "dayOf now - date (?sh ! 0) > 1" by linarith
  then show "calculateStreak now h = 0"
    by (simp add: calculateStreak_unfold [OF ne] Let_def)
qed

theorem calculateStreak_zero_witness:
  "[rowOn 98, rowOn 90] \<noteq> [] \<and> Max (date ` set [rowOn 98, rowOn 90]) + 1 < dayOf (100 * msPerDay + 36000000) \<and>
   calculateStreak (100 * msPerDay + 36000000) [rowOn 98, rowOn 90] = 0"
proof -
  have old: "Max (date ` set [rowOn 98, rowOn 90]) + 1 < dayOf (100 * msPerDay + 36000000)"
    by simp
  then show ?thesis
    using calculateStreak_zero [of "100 * msPerDay + 36000000" "[rowOn 98, rowOn 90]"] by blast
qed

text \<open>
  Claim C1. The claim expects \<open>k\<close> for a history of one completion per day on \<open>k\<close>
  consecutive days ending yesterday. The loop starts with \<open>currentDate = today\<close> and
  moves it only after an entry dated today was seen, so the first entry, dated yesterday,
  ends the loop: the function returns 0, here at 10:00 on day 100 for the runs
  \<open>99\<close> and \<open>97, 98, 99\<close>.
\<close>

theorem calculateStreak_run_ending_yesterday:
  "dayOf (100 * msPerDay + 36000000) = 100 \<and>
   calculateStreak (100 * msPerDay + 36000000) [rowOn 99] = 0 \<and>
   calculateStreak (100 * msPerDay + 36000000) [rowOn 97, rowOn 98, rowOn 99] = 0"
  by (simp add: calculateStreak_without_today)

section \<open>The time zone of the process\<close>

text \<open>
  Claim C8. The claim expects two calls with identical input to give identical output,
  with no hidden state influencing the result; for \<^verbatim>\<open>calculateLongestStreak\<close> the
  input is the history. The function also reads the time zone of the process, through
  \<^verbatim>\<open>toISOString\<close>: for the same history, the five consecutive days from 28 March to
  1 April 2024, it returns 4 where the zone is Europe/London and 5 where it is UTC.
\<close>

theorem calculateLongestStreak_depends_on_time_zone:
  "calculateLongestStreak europeLondon
     (map rowOn [19810, 19811, 19812, 19813, 19814]) = 4 \<and>
   calculateLongestStreak utcZone
     (map rowOn [19810, 19811, 19812, 19813, 19814]) = 5"
  by (simp add: calculateLongestStreak_def toISODay_def europeLondon_def utcZone_def
      rowOn_def parseISO_def startOfDay_def differenceInDays_def msPerDay_def
      setToArray_def sortBy_def Let_def)

section \<open>The schedule validator\<close>

text \<open>
  In a sorted array two entries at distance 1 exist exactly when two neighbours are at
  distance 1, which is what the validator tests after sorting.
\<close>

lemma some_indexed_iff:
  "some_indexed f xs = (\<exists>i<length xs. f (xs ! i) i)"
  by (auto simp: some_indexed_def list_ex_iff)

lemma adjacent_Cons:
  assumes "\<exists>i. 0 < i \<and> i < length xs \<and> \<bar>xs ! i - xs ! (i - 1)\<bar> = (1 :: int)"
  shows "\<exists>i. 0 < i \<and> i < length (x # xs) \<and> \<bar>(x # xs) ! i - (x # xs) ! (i - 1)\<bar> = 1"
proof -
  from assms obtain i where i: "0 < i" "i < length xs" "\<bar>xs ! i - xs ! (i - 1)\<bar> = 1"
    by blast
  then have "0 < Suc i \<and> Suc i < length (x # xs) \<and>
      \<bar>(x # xs) ! Suc i - (x # xs) ! (Suc i - 1)\<bar> = 1"
    by (cases i) auto
  then show ?thesis by blast
qed

lemma sorted_adjacent:
  assumes "sorted (xs :: int list)" and "a \<in> set xs" and "b \<in> set xs" and "b = a + 1"
  shows "\<exists>i. 0 < i \<and> i < length xs \<and> \<bar>xs ! i - xs ! (i - 1)\<bar> = 1"
  using assms
proof (induction xs)
  case Nil
  then show ?case by simp
next
  case (Cons x xs)
  show ?case
  proof (cases "a \<in> set xs")
    case True
    have "b \<in> set xs"
    proof (rule ccontr)
      assume "b \<notin> set xs"
      with Cons.prems have "b = x" by simp
      moreover have "x \<le> a" using Cons.prems(1) True by auto
      ultimately show False using Cons.prems(4) by simp
    qed
    with True Cons.prems have "\<exists>i. 0 < i \<and> i < length xs \<and> \<bar>xs ! i - xs ! (i - 1)\<bar> = 1"
      by (intro Cons.IH) auto
    then show ?thesis by (rule adjacent_Cons)
  next
    case False
    with Cons.prems have ax: "a = x" by simp
    with Cons.prems have bxs: "b \<in> set xs" by auto
    then obtain y ys where xs: "xs = y # ys" by (cases xs) auto
    have "x \<le> y" "y \<le> b" using Cons.prems(1) bxs xs by auto
    then consider "y = x + 1" | "y = x" using ax Cons.prems(4) by linarith
    then show ?thesis
    proof cases
      case 1
      then have "0 < (1::nat) \<and> 1 < length (x # xs) \<and> \<bar>(x # xs) ! 1 - (x # xs) ! (1 - 1)\<bar> = 1"
        by (simp add: xs)
      then show ?thesis by blast
    next
      case 2
      then have "a \<in> set xs" using ax xs by simp
      with False show ?thesis by simp
    qed
  qed
qed

lemma sorted_adjacent_iff:
  assumes "sorted (xs :: int list)"
  shows "some_indexed (\<lambda>x i. if i = 0 then False else \<bar>x - xs ! (i - 1)\<bar> = 1) xs =
         (\<exists>a\<in>set xs. \<exists>b\<in>set xs. \<bar>a - b\<bar> = 1)"
proof
  assume "some_indexed (\<lambda>x i. if i = 0 then False else \<bar>x - xs ! (i - 1)\<bar> = 1) xs"
  then obtain i where i: "i < length xs" "i \<noteq> 0" "\<bar>xs ! i - xs ! (i - 1)\<bar> = 1"
    by (auto simp: some_indexed_iff split: if_splits)
  then have "xs ! i \<in> set xs" "xs ! (i - 1) \<in> set xs" by simp_all
  with i(3) show "\<exists>a\<in>set xs. \<exists>b\<in>set xs. \<bar>a - b\<bar> = 1" by blast
next
  assume "\<exists>a\<in>set xs. \<exists>b\<in>set xs. \<bar>a - b\<bar> = 1"
  then obtain a b where ab: "a \<in> set xs" "b \<in> set xs" "\<bar>a - b\<bar> = 1" by blast
  then consider "b = a + 1" | "a = b + 1" by linarith
  then have "\<exists>i. 0 < i \<and> i < length xs \<and> \<bar>xs ! i - xs ! (i - 1)\<bar> = 1"
  proof cases
    case 1
    with assms ab show ?thesis by (intro sorted_adjacent [of xs a b])
  next
    case 2
    with assms ab show ?thesis by (intro sorted_adjacent [of xs b a])
  qed
  then show "some_indexed (\<lambda>x i. if i = 0 then False else \<bar>x - xs ! (i - 1)\<bar> = 1) xs"
    by (auto simp: some_indexed_iff)
qed

lemma scheduleIndex_values [simp]:
  "scheduleIndex ''monday'' = 0" "scheduleIndex ''tuesday'' = 1"
  "scheduleIndex ''wednesday'' = 2" "scheduleIndex ''thursday'' = 3"
  "scheduleIndex ''friday'' = 4" "scheduleIndex ''saturday'' = 5"
  "scheduleIndex ''sunday'' = 6"
  by (simp_all add: scheduleIndex_def schedule_days_def)

lemma onboardingIndex_values [simp]:
  "onboardingIndex ''sunday'' = 0" "onboardingIndex ''monday'' = 1"
  "onboardingIndex ''tuesday'' = 2" "onboardingIndex ''wednesday'' = 3"
  "onboardingIndex ''thursday'' = 4" "onboardingIndex ''friday'' = 5"
  "onboardingIndex ''saturday'' = 6"
  by (simp_all add: onboardingIndex_def onboarding_days_def)

text \<open>
  Claim C2, as amended. \<^verbatim>\<open>validateDayToggle\<close> returns valid for every removal. For an
  addition the resulting selection is \<open>selectedDays\<close> with \<open>dayId\<close> appended: when it
  has more than 4 entries the result is invalid with the message
  \<^verbatim>\<open>Maximum of 4 workout days allowed\<close>; otherwise, when it holds two days whose
  indices in the Monday-first table differ by exactly 1, the result is invalid with the
  message \<^verbatim>\<open>Rest day required between workouts\<close>; otherwise it is valid. Adding
  Wednesday to the selection Monday, Friday is valid.
\<close>

theorem validateDayToggle_cases:
  "validateDayToggle selectedDays dayId False = \<lparr>isValid = True, message = None\<rparr> \<and>
   validateDayToggle selectedDays dayId True =
     (if length (selectedDays @ [dayId]) > 4
      then \<lparr>isValid = False, message = Some ''Maximum of 4 workout days allowed''\<rparr>
      else if \<exists>a\<in>set (selectedDays @ [dayId]). \<exists>b\<in>set (selectedDays @ [dayId]).
                \<bar>scheduleIndex a - scheduleIndex b\<bar> = 1
      then \<lparr>isValid = False, message = Some ''Rest day required between workouts''\<rparr>
      else \<lparr>isValid = True, message = None\<rparr>) \<and>
   validateDayToggle [''monday'', ''friday''] ''wednesday'' True =
     \<lparr>isValid = True, message = None\<rparr>"
proof (intro conjI)
  show "validateDayToggle selectedDays dayId False = \<lparr>isValid = True, message = None\<rparr>"
    by (simp add: validateDayToggle_def)
next
  let ?new = "selectedDays @ [dayId]"
  let ?idx = "sort (map scheduleIndex ?new)"
  have "some_indexed (\<lambda>x i. if i = 0 then False else \<bar>x - ?idx ! (i - 1)\<bar> = 1) ?idx =
        (\<exists>a\<in>set ?idx. \<exists>b\<in>set ?idx. \<bar>a - b\<bar> = 1)"
    by (rule sorted_adjacent_iff) simp
  also have "\<dots> = (\<exists>a\<in>set ?new. \<exists>b\<in>set ?new. \<bar>scheduleIndex a - scheduleIndex b\<bar> = 1)"
    by auto
  finally have adj: "some_indexed (\<lambda>x i. if i = 0 then False else \<bar>x - ?idx ! (i - 1)\<bar> = 1) ?idx =
        (\<exists>a\<in>set ?new. \<exists>b\<in>set ?new. \<bar>scheduleIndex a - scheduleIndex b\<bar> = 1)" .
  have idx: "sortBy (\<lambda>a b. a - b) (map (\<lambda>d. findIndex (\<lambda>day. fst day = d) schedule_days) ?new) = ?idx"
    by (simp add: sortBy_numeric scheduleIndex_def [abs_def])
  show "validateDayToggle selectedDays dayId True =
     (if length ?new > 4
      then \<lparr>isValid = False, message = Some ''Maximum of 4 workout days allowed''\<rparr>
      else if \<exists>a\<in>set ?new. \<exists>b\<in>set ?new. \<bar>scheduleIndex a - scheduleIndex b\<bar> = 1
      then \<lparr>isValid = False, message = Some ''Rest day required between workouts''\<rparr>
      else \<lparr>isValid = True, message = None\<rparr>)"
    unfolding validateDayToggle_def Let_def idx adj by simp
next
  show "validateDayToggle [''monday'', ''friday''] ''wednesday'' True =
     \<lparr>isValid = True, message = None\<rparr>"
    by (simp add: validateDayToggle_def schedule_days_def sortBy_def some_indexed_def)
qed

theorem validateDayToggle_cases_witness:
  "validateDayToggle [''monday''] ''tuesday'' False = \<lparr>isValid = True, message = None\<rparr> \<and>
   \<not> length ([''monday''] @ [''tuesday'']) > 4 \<and>
   (\<exists>a\<in>set ([''monday''] @ [''tuesday'']). \<exists>b\<in>set ([''monday''] @ [''tuesday'']).
      \<bar>scheduleIndex a - scheduleIndex b\<bar> = 1) \<and>
   validateDayToggle [''monday''] ''tuesday'' True =
     \<lparr>isValid = False, message = Some ''Rest day required between workouts''\<rparr>"
proof -
  have adj: "\<exists>a\<in>set ([''monday''] @ [''tuesday'']). \<exists>b\<in>set ([''monday''] @ [''tuesday'']).
      \<bar>scheduleIndex a - scheduleIndex b\<bar> = 1"
    by simp
  have len: "\<not> length ([''monday''] @ [''tuesday'']) > 4"
    by simp
  show ?thesis
    using validateDayToggle_cases [of "[''monday'']" "''tuesday''"] adj len
    by (simp only: if_True if_False simp_thms)
qed

text \<open>
  The messages are not the ones the claim quotes: for a fifth day, and for Tuesday
  next to Monday, the validator answers with its own two texts.
\<close>

theorem validateDayToggle_messages_counterexample:
  "validateDayToggle [''monday'', ''wednesday'', ''friday'', ''sunday''] ''tuesday'' True =
     \<lparr>isValid = False, message = Some ''Maximum of 4 workout days allowed''\<rparr> \<and>
   validateDayToggle [''monday'', ''wednesday'', ''friday'', ''sunday''] ''tuesday'' True \<noteq>
     \<lparr>isValid = False, message = Some ''maximum workout days exceeded''\<rparr> \<and>
   validateDayToggle [''monday''] ''tuesday'' True =
     \<lparr>isValid = False, message = Some ''Rest day required between workouts''\<rparr> \<and>
   validateDayToggle [''monday''] ''tuesday'' True \<noteq>
     \<lparr>isValid = False, message = Some ''rest day required between workouts''\<rparr>"
  by (simp add: validateDayToggle_def schedule_days_def sortBy_def some_indexed_def)

text \<open>
  Claim C7, as amended. The adjacency check is not circular: only an index distance of
  exactly 1 is rejected. The table of the schedule screen is Monday-first, so the two
  ends of its week are Monday and Sunday, at distance 6: adding Sunday to a selection
  holding only Monday is valid, and so is adding Monday to one holding only Sunday. The
  table of the onboarding screen is Sunday-first; there Saturday and Sunday are at
  distance 6, and toggling Sunday on a selection holding only Saturday is accepted, as
  is toggling Saturday on one holding only Sunday.
\<close>

theorem adjacency_not_circular:
  "scheduleIndex ''sunday'' - scheduleIndex ''monday'' = 6 \<and>
   validateDayToggle [''monday''] ''sunday'' True = \<lparr>isValid = True, message = None\<rparr> \<and>
   validateDayToggle [''sunday''] ''monday'' True = \<lparr>isValid = True, message = None\<rparr> \<and>
   onboardingIndex ''saturday'' - onboardingIndex ''sunday'' = 6 \<and>
   toggleDay [''saturday''] ''sunday'' = [''saturday'', ''sunday''] \<and>
   toggleDay [''sunday''] ''saturday'' = [''sunday'', ''saturday'']"
  by (simp add: validateDayToggle_def schedule_days_def sortBy_def some_indexed_def
      toggleDay_def onboarding_days_def)

text \<open>
  In the schedule screen Saturday and Sunday have the indices 5 and 6, and
  \<^verbatim>\<open>validateDayToggle\<close> rejects the one next to the other.
\<close>

theorem validateDayToggle_saturday_sunday_counterexample:
  "scheduleIndex ''sunday'' - scheduleIndex ''saturday'' = 1 \<and>
   validateDayToggle [''saturday''] ''sunday'' True =
     \<lparr>isValid = False, message = Some ''Rest day required between workouts''\<rparr> \<and>
   validateDayToggle [''sunday''] ''saturday'' True =
     \<lparr>isValid = False, message = Some ''Rest day required between workouts''\<rparr>"
  by (simp add: validateDayToggle_def schedule_days_def sortBy_def some_indexed_def)

section \<open>The onboarding toggle\<close>

text \<open>
  Claim C9. The claim expects that no selection reachable from Monday, Wednesday, Friday
  holds two days with adjacent indices, nor more than 4 days. The onboarding toggle
  compares the indices in selection order without sorting them: tapping Tuesday gives the
  indices 1, 3, 5, 2, no two neighbours at distance 1, and the selection is accepted
  although Monday and Tuesday are in it; tapping Thursday next gives five days.
\<close>

theorem toggleDay_admits_adjacent_days:
  "toggleDays onboarding_default [''tuesday''] =
     [''monday'', ''wednesday'', ''friday'', ''tuesday''] \<and>
   \<bar>onboardingIndex ''tuesday'' - onboardingIndex ''monday''\<bar> = 1 \<and>
   toggleDays onboarding_default [''tuesday'', ''thursday''] =
     [''monday'', ''wednesday'', ''friday'', ''tuesday'', ''thursday''] \<and>
   length (toggleDays onboarding_default [''tuesday'', ''thursday'']) = 5"
  by (simp add: toggleDays_def toggleDay_def onboarding_default_def onboarding_days_def
      some_indexed_def)

section \<open>The response of the edge function\<close>

text \<open>
  Claim C4, as amended. For a request other than OPTIONS that is answered with status
  200, the request body was JSON with a truthy \<^verbatim>\<open>user_id\<close>, and the response body is
  an object with exactly the two top-level fields \<^verbatim>\<open>success\<close> (true) and
  \<^verbatim>\<open>stats\<close>; the fields of \<^verbatim>\<open>stats\<close> are exactly \<^verbatim>\<open>total_workouts\<close>,
  \<^verbatim>\<open>current_streak\<close>, \<^verbatim>\<open>longest_streak\<close> and \<^verbatim>\<open>average_workout_duration\<close>,
  computed from the history.
\<close>

theorem handler_success_body:
  assumes "req_method req \<noteq> ''OPTIONS''"
      and "status (snd (handler avg e req)) = 200"
  shows "\<exists>parsed uid h.
           req_json req = Inr parsed \<and>
           getProp parsed ''user_id'' = Some uid \<and> truthy (Some uid) \<and>
           h = (case historyData e of None \<Rightarrow> [] | Some rows \<Rightarrow> rows) \<and>
           body (snd (handler avg e req)) =
             Some (JObj
               [(''success'', JBool True),
                (''stats'', JObj
                   [(''total_workouts'', JNum (int (length h))),
                    (''current_streak'', JNum (int (calculateStreak (clock e) h))),
                    (''longest_streak'', JNum (int (calculateLongestStreak (tzOffset e) h))),
                    (''average_workout_duration'', JNum (avg h))])])"
proof -
  from assms obtain r where r: "handlerBody avg e req = Inr r" and st: "status (snd r) = 200"
    by (auto simp: handler_def jsonResponse_def split: sum.splits)
  from r obtain parsed where parsed: "req_json req = Inr parsed" "parsed \<noteq> JNull"
    by (auto simp: handlerBody_def split: sum.splits json.splits)
  have body_eq: "handlerBody avg e req =
     (let uid = getProp parsed ''user_id'' in
          if \<not> truthy uid
          then Inr (None, jsonResponse 400 (JObj [(''error'', JStr ''User ID is required'')]))
          else
            (case historyError e of
               Some historyErr \<Rightarrow> Inl (err_message historyErr)
             | None \<Rightarrow>
                 let workoutHistory = (case historyData e of None \<Rightarrow> [] | Some h \<Rightarrow> h);
                     totalWorkouts = int (length workoutHistory);
                     currentStreak = int (calculateStreak (clock e) workoutHistory);
                     longestStreak = int (calculateLongestStreak (tzOffset e) workoutHistory);
                     averageWorkoutDuration = avg workoutHistory;
                     stats =
                       [(''total_workouts'', JNum totalWorkouts),
                        (''current_streak'', JNum currentStreak),
                        (''longest_streak'', JNum longestStreak),
                        (''average_workout_duration'', JNum averageWorkoutDuration)]
                 in
                 if (case statsError e of
                       None \<Rightarrow> False
                     | Some statsErr \<Rightarrow> err_code statsErr \<noteq> ''PGRST116'')
                 then Inl (err_message (the (statsError e)))
                 else
                   let write =
                         (case existingStats e of
                            Some _ \<Rightarrow>
                              UpdateStats (the uid)
                                (stats @ [(''updated_at'', JStr (updatedAt e))])
                          | None \<Rightarrow> InsertStats ((''user_id'', the uid) # stats))
                   in
                   (case writeError e of
                      Some writeErr \<Rightarrow> Inl (err_message writeErr)
                    | None \<Rightarrow>
                        Inr (Some write,
                             jsonResponse 200
                               (JObj [(''success'', JBool True), (''stats'', JObj stats)])))))"
    using parsed by (cases parsed) (simp_all add: handlerBody_def)
  have tr: "truthy (getProp parsed ''user_id'')"
    using r st unfolding body_eq by (auto simp: Let_def jsonResponse_def split: if_splits)
  then obtain uid where uid: "getProp parsed ''user_id'' = Some uid"
    by (cases "getProp parsed ''user_id''") auto
  have "body (snd r) =
             Some (JObj
               [(''success'', JBool True),
                (''stats'', JObj
                   [(''total_workouts'', JNum (int (length (case historyData e of None \<Rightarrow> [] | Some rows \<Rightarrow> rows)))),
                    (''current_streak'', JNum (int (calculateStreak (clock e) (case historyData e of None \<Rightarrow> [] | Some rows \<Rightarrow> rows)))),
                    (''longest_streak'', JNum (int (calculateLongestStreak (tzOffset e) (case historyData e of None \<Rightarrow> [] | Some rows \<Rightarrow> rows)))),
                    (''average_workout_duration'', JNum (avg (case historyData e of None \<Rightarrow> [] | Some rows \<Rightarrow> rows)))])])"
    using r tr unfolding body_eq
    by (auto simp: Let_def jsonResponse_def split: if_splits option.splits)
  moreover have "snd (handler avg e req) = snd r"
    using assms(1) r by (simp add: handler_def)
  ultimately show ?thesis
    using parsed uid tr by auto
qed

theorem handler_success_body_witness:
  "req_method sampleRequest \<noteq> ''OPTIONS'' \<and>
   status (snd (handler sampleAverage sampleEnv sampleRequest)) = 200 \<and>
   fieldNames (body (snd (handler sampleAverage sampleEnv sampleRequest))) =
     [''success'', ''stats'']"
proof -
  have m: "req_method sampleRequest \<noteq> ''OPTIONS''"
    by (simp add: sampleRequest_def)
  have st: "status (snd (handler sampleAverage sampleEnv sampleRequest)) = 200"
    by (simp add: handler_def handlerBody_def sampleRequest_def sampleEnv_def
        jsonResponse_def Let_def)
  from handler_success_body [OF m st]
  have "fieldNames (body (snd (handler sampleAverage sampleEnv sampleRequest))) =
     [''success'', ''stats'']"
    by auto
  with m st show ?thesis by simp
qed

text \<open>
  The four statistics are not at the top level of the response body: for the sample
  exchange the top-level fields are \<^verbatim>\<open>success\<close> and \<^verbatim>\<open>stats\<close>.
\<close>

theorem handler_top_level_fields_counterexample:
  "status (snd (handler sampleAverage sampleEnv sampleRequest)) = 200 \<and>
   body (snd (handler sampleAverage sampleEnv sampleRequest)) =
     Some (JObj
       [(''success'', JBool True),
        (''stats'', JObj
           [(''total_workouts'', JNum 1), (''current_streak'', JNum 1),
            (''longest_streak'', JNum 1), (''average_workout_duration'', JNum 0)])]) \<and>
   fieldNames (body (snd (handler sampleAverage sampleEnv sampleRequest))) \<noteq>
     [''total_workouts'', ''current_streak'', ''longest_streak'',
      ''average_workout_duration'']"
proof -
  have cs: "calculateStreak (100 * msPerDay + 36000000)
      [\<lparr>row_id = ''r1'', user_id = ''u1'', date = 100, exercises = JArr [], created_at = []\<rparr>] = 1"
    by (simp add: calculateStreak_def sortBy_def Let_def startOfDay_dayOf)
  have ls: "calculateLongestStreak utcZone
      [\<lparr>row_id = ''r1'', user_id = ''u1'', date = 100, exercises = JArr [], created_at = []\<rparr>] = 1"
    by (simp add: calculateLongestStreak_def sortBy_def setToArray_def)
  have av: "sampleAverage
      [\<lparr>row_id = ''r1'', user_id = ''u1'', date = 100, exercises = JArr [], created_at = []\<rparr>] = 0"
    by (simp add: sampleAverage_def)
  show ?thesis
    by (simp add: handler_def handlerBody_def sampleRequest_def sampleEnv_def
        jsonResponse_def Let_def cs ls av)
qed

end
